theory Spec2Isabelle
  imports Main "HOL-Library.Word"
begin

unbundle bit_operations_syntax

section \<open>Modifier masks\<close>

text \<open>
  The modifier state is the flags value that \<^verbatim>\<open>global.get_pointer()\<close> hands
  out. JavaScript's \<^verbatim>\<open>&\<close> works on 32-bit integers, so the state is a 32-bit word.
  \<^verbatim>\<open>MODIFIER_MASKS\<close> names eight members of \<^verbatim>\<open>Clutter.ModifierType\<close>; their values
  are those of the toolkit's enumeration (bit 0 to bit 7).
\<close>

type_synonym modifiers = "32 word"

definition SHIFT_MASK :: modifiers where "SHIFT_MASK = 1"
definition LOCK_MASK :: modifiers where "LOCK_MASK = 2"
definition CONTROL_MASK :: modifiers where "CONTROL_MASK = 4"
definition MOD1_MASK :: modifiers where "MOD1_MASK = 8"
definition MOD2_MASK :: modifiers where "MOD2_MASK = 16"
definition MOD3_MASK :: modifiers where "MOD3_MASK = 32"
definition MOD4_MASK :: modifiers where "MOD4_MASK = 64"
definition MOD5_MASK :: modifiers where "MOD5_MASK = 128"

section \<open>ModifierStateTracker\<close>

text \<open>
  \<^verbatim>\<open>previousState\<close> is \<^verbatim>\<open>null\<close> or a number: an option.
\<close>

record ModifierStateTracker =
  currentState :: modifiers
  previousState :: "modifiers option"

definition reset :: ModifierStateTracker where
  "reset = \<lparr>currentState = 0, previousState = None\<rparr>"

definition updateState :: "modifiers \<Rightarrow> ModifierStateTracker \<Rightarrow> ModifierStateTracker" where
  "updateState newState t =
     (t\<lparr>previousState := Some (currentState t)\<rparr>)\<lparr>currentState := newState\<rparr>"

text \<open>\<^verbatim>\<open>currentState !== previousState\<close>: a number is never identical to \<^verbatim>\<open>null\<close>.\<close>

definition hasStateChanged :: "ModifierStateTracker \<Rightarrow> bool" where
  "hasStateChanged t = (Some (currentState t) \<noteq> previousState t)"

definition isModifierActive :: "modifiers \<Rightarrow> ModifierStateTracker \<Rightarrow> bool" where
  "isModifierActive msk t = (currentState t AND msk \<noteq> 0)"

record ChangeInfo =
  wasActive :: bool
  isActive :: bool

definition getModifierChangeInfo :: "modifiers \<Rightarrow> ModifierStateTracker \<Rightarrow> ChangeInfo option" where
  "getModifierChangeInfo msk t =
     (case previousState t of
        None \<Rightarrow> None
      | Some prev \<Rightarrow>
          (let was = (prev AND msk \<noteq> 0);
               now = (currentState t AND msk \<noteq> 0)
           in if was \<noteq> now then Some \<lparr>wasActive = was, isActive = now\<rparr> else None))"

section \<open>SettingsManager of the extension\<close>

text \<open>
  The host's settings object (\<^verbatim>\<open>Gio.Settings\<close>): the string stored under each key,
  the schema's default for each key, and the dictionary stored under
  \<^verbatim>\<open>saved-symbols\<close>. The schema file is not part of the sources at hand, so the
  stored strings and the defaults are arbitrary.
\<close>

record Settings =
  get_string :: "string \<Rightarrow> string"
  get_default_value :: "string \<Rightarrow> string"
  saved_symbols :: "string \<rightharpoonup> string"

record SettingsManager =
  settings :: "Settings option"
  symbols_modifiers :: "(modifiers \<times> string) list"

definition new_SettingsManager :: SettingsManager where
  "new_SettingsManager = \<lparr>settings = None, symbols_modifiers = []\<rparr>"

text \<open>
  \<^verbatim>\<open>loadSettings\<close> warns and returns when the settings object is null; otherwise
  it rebuilds the list of pairs from eight fixed masks and eight stored strings.
\<close>

definition loadSettings :: "SettingsManager \<Rightarrow> SettingsManager" where
  "loadSettings sm =
     (case settings sm of
        None \<Rightarrow> sm
      | Some s \<Rightarrow>
          sm\<lparr>symbols_modifiers :=
            [(SHIFT_MASK, get_string s ''shift-symbol''),
             (LOCK_MASK, get_string s ''caps-symbol''),
             (CONTROL_MASK, get_string s ''control-symbol''),
             (MOD1_MASK, get_string s ''alt-symbol''),
             (MOD2_MASK, get_string s ''num-symbol''),
             (MOD3_MASK, get_string s ''scroll-symbol''),
             (MOD4_MASK, get_string s ''super-symbol''),
             (MOD5_MASK, get_string s ''altgr-symbol'')]\<rparr>)"

text \<open>\<^verbatim>\<open>initialize\<close>: fetch the settings object of the extension, then load.\<close>

definition SettingsManager_initialize :: "Settings \<Rightarrow> SettingsManager \<Rightarrow> SettingsManager" where
  "SettingsManager_initialize s sm = loadSettings (sm\<lparr>settings := Some s\<rparr>)"

text \<open>
  The handler that \<^verbatim>\<open>initialize\<close> connects to the \<^verbatim>\<open>changed\<close> signal of the
  settings object: \<open>s\<close> is the content of the object after the change, and the
  handler calls \<^verbatim>\<open>loadSettings\<close>. These two are the only callers of
  \<^verbatim>\<open>loadSettings\<close>.
\<close>

definition SettingsManager_changed :: "Settings \<Rightarrow> SettingsManager \<Rightarrow> SettingsManager" where
  "SettingsManager_changed s sm = loadSettings (sm\<lparr>settings := Some s\<rparr>)"

section \<open>The on-screen display\<close>

text \<open>
  The part of the shell the OSD windows live in: the number of monitors of the layout
  manager, the actors that are children of \<^verbatim>\<open>Main.uiGroup\<close> (by object identity) and
  the number of objects allocated so far, which is the identity of the next one.
\<close>

record Shell =
  monitors :: nat
  uiGroup :: "nat list"
  allocated :: nat

text \<open>
  One OSD window. The fade animation and the hide timer are host effects that no
  property below depends on; the labels and the visibility are kept.
\<close>

record ModifiersOSD =
  osd_id :: nat
  monitorIndex :: nat
  titleLabel :: string
  statusLabel :: string
  visible :: bool

text \<open>
  \<^verbatim>\<open>new ModifiersOSD(i)\<close>: a fresh actor, hidden, with empty labels (\<^verbatim>\<open>_reset\<close>),
  added to \<^verbatim>\<open>Main.uiGroup\<close>.
\<close>

definition new_ModifiersOSD :: "nat \<Rightarrow> Shell \<Rightarrow> ModifiersOSD \<times> Shell" where
  "new_ModifiersOSD i sh =
     (\<lparr>osd_id = allocated sh, monitorIndex = i, titleLabel = [], statusLabel = [],
       visible = False\<rparr>,
      sh\<lparr>uiGroup := uiGroup sh @ [allocated sh], allocated := Suc (allocated sh)\<rparr>)"

text \<open>\<^verbatim>\<open>destroy\<close>: the actor leaves the scene graph.\<close>

definition ModifiersOSD_destroy :: "ModifiersOSD \<Rightarrow> Shell \<Rightarrow> Shell" where
  "ModifiersOSD_destroy w sh = sh\<lparr>uiGroup := removeAll (osd_id w) (uiGroup sh)\<rparr>"

definition ModifiersOSD_show :: "string \<Rightarrow> string \<Rightarrow> ModifiersOSD \<Rightarrow> ModifiersOSD" where
  "ModifiersOSD_show title status w =
     w\<lparr>titleLabel := title, statusLabel := status, visible := True\<rparr>"

subsection \<open>JavaScript arrays with empty slots\<close>

text \<open>
  \<^verbatim>\<open>_osdWindows\<close> is an array whose slots hold an OSD or nothing (\<^verbatim>\<open>null\<close>, or a
  hole). Reading past the end gives \<^verbatim>\<open>undefined\<close>; writing past the end extends the
  array; assigning \<^verbatim>\<open>length\<close> truncates or extends it.
\<close>

definition array_get :: "'a option list \<Rightarrow> nat \<Rightarrow> 'a option" where
  "array_get xs i = (if i < length xs then xs ! i else None)"

definition array_set :: "'a option list \<Rightarrow> nat \<Rightarrow> 'a option \<Rightarrow> 'a option list" where
  "array_set xs i v =
     (if i < length xs then xs[i := v]
      else xs @ replicate (i - length xs) None @ [v])"

definition array_set_length :: "'a option list \<Rightarrow> nat \<Rightarrow> 'a option list" where
  "array_set_length xs n =
     (if n \<le> length xs then take n xs else xs @ replicate (n - length xs) None)"

subsection \<open>ModifiersOSDManager\<close>

record ModifiersOSDManager =
  osdWindows :: "ModifiersOSD option list"

text \<open>
  First loop of \<^verbatim>\<open>_onMonitorsChanged\<close>: \<^verbatim>\<open>for (i = 0; i < monitorCount; i++)\<close>, a new
  OSD for every slot that holds none.
\<close>

function create_loop ::
  "nat \<Rightarrow> nat \<Rightarrow> Shell \<times> ModifiersOSD option list \<Rightarrow> Shell \<times> ModifiersOSD option list" where
  "create_loop i monitorCount (sh, ws) =
     (if i < monitorCount then
        (case array_get ws i of
           None \<Rightarrow>
             (case new_ModifiersOSD i sh of
                (w, sh') \<Rightarrow> create_loop (Suc i) monitorCount (sh', array_set ws i (Some w)))
         | Some _ \<Rightarrow> create_loop (Suc i) monitorCount (sh, ws))
      else (sh, ws))"
  by pat_completeness auto
termination
  by (relation "measure (\<lambda>(i, monitorCount, _). monitorCount - i)") auto

text \<open>
  Second loop: \<^verbatim>\<open>for (i = monitorCount; i < this._osdWindows.length; i++)\<close>, every
  OSD found there is destroyed and its slot set to \<^verbatim>\<open>null\<close>.
\<close>

function remove_loop ::
  "nat \<Rightarrow> Shell \<times> ModifiersOSD option list \<Rightarrow> Shell \<times> ModifiersOSD option list" where
  "remove_loop i (sh, ws) =
     (if i < length ws then
        (case array_get ws i of
           Some w \<Rightarrow> remove_loop (Suc i) (ModifiersOSD_destroy w sh, array_set ws i None)
         | None \<Rightarrow> remove_loop (Suc i) (sh, ws))
      else (sh, ws))"
  by pat_completeness auto
termination
  by (relation "measure (\<lambda>(i, _, ws). length ws - i)") (auto simp: array_set_def)

definition onMonitorsChanged :: "Shell \<times> ModifiersOSDManager \<Rightarrow> Shell \<times> ModifiersOSDManager" where
  "onMonitorsChanged st =
     (case st of (sh, mgr) \<Rightarrow>
        (let monitorCount = monitors sh in
         case create_loop 0 monitorCount (sh, osdWindows mgr) of (sh1, ws1) \<Rightarrow>
         case remove_loop monitorCount (sh1, ws1) of (sh2, ws2) \<Rightarrow>
           (sh2, mgr\<lparr>osdWindows := array_set_length ws2 monitorCount\<rparr>)))"

text \<open>The constructor: an empty array, then \<^verbatim>\<open>_onMonitorsChanged\<close>.\<close>

definition new_ModifiersOSDManager :: "Shell \<Rightarrow> Shell \<times> ModifiersOSDManager" where
  "new_ModifiersOSDManager sh = onMonitorsChanged (sh, \<lparr>osdWindows = []\<rparr>)"

text \<open>
  The host raises the \<^verbatim>\<open>monitors-changed\<close> signal after the number of monitors has
  become \<open>n\<close>.
\<close>

definition monitors_changed :: "nat \<Rightarrow> Shell \<times> ModifiersOSDManager \<Rightarrow> Shell \<times> ModifiersOSDManager" where
  "monitors_changed n st = (case st of (sh, mgr) \<Rightarrow> onMonitorsChanged (sh\<lparr>monitors := n\<rparr>, mgr))"

text \<open>
  \<^verbatim>\<open>show\<close> runs over the array with \<^verbatim>\<open>forEach\<close>. The toolkit calls made while one
  OSD is shown can raise: \<open>fault i\<close> is the exception raised for the OSD of monitor
  \<open>i\<close>, if any, by the first toolkit call of its \<^verbatim>\<open>show\<close>. An exception ends the
  iteration: the windows before it have been shown, the others are untouched. The
  result is the exception, if any, and the array afterwards.
\<close>

type_synonym host_fault = "nat \<Rightarrow> string option"

fun forEach_show ::
  "host_fault \<Rightarrow> string \<Rightarrow> string \<Rightarrow> ModifiersOSD option list \<Rightarrow> string option \<times> ModifiersOSD option list" where
  "forEach_show fault title status [] = (None, [])"
| "forEach_show fault title status (None # ws) =
     (case forEach_show fault title status ws of (e, ws') \<Rightarrow> (e, None # ws'))"
| "forEach_show fault title status (Some w # ws) =
     (case fault (monitorIndex w) of
        Some e \<Rightarrow> (Some e, Some w # ws)
      | None \<Rightarrow>
          (case forEach_show fault title status ws of
             (e, ws') \<Rightarrow> (e, Some (ModifiersOSD_show title status w) # ws')))"

definition ModifiersOSDManager_show ::
  "host_fault \<Rightarrow> string \<Rightarrow> string \<Rightarrow> ModifiersOSDManager \<Rightarrow> string option \<times> ModifiersOSDManager" where
  "ModifiersOSDManager_show fault title status mgr =
     (case forEach_show fault title status (osdWindows mgr) of
        (e, ws) \<Rightarrow> (e, mgr\<lparr>osdWindows := ws\<rparr>))"

section \<open>PanelIndicator\<close>

text \<open>The text of the label, once \<^verbatim>\<open>initialize\<close> has created it.\<close>

record PanelIndicator =
  label :: "string option"

definition new_PanelIndicator :: PanelIndicator where
  "new_PanelIndicator = \<lparr>label = None\<rparr>"

definition PanelIndicator_initialize :: "PanelIndicator \<Rightarrow> PanelIndicator" where
  "PanelIndicator_initialize p = p\<lparr>label := Some []\<rparr>"

definition updateText :: "string \<Rightarrow> PanelIndicator \<Rightarrow> PanelIndicator" where
  "updateText text p = (case label p of None \<Rightarrow> p | Some _ \<Rightarrow> p\<lparr>label := Some text\<rparr>)"

section \<open>The extension\<close>

text \<open>\<^verbatim>\<open>console\<close> collects the lines written with \<^verbatim>\<open>console.error\<close>.\<close>

record Extension =
  stateTracker :: ModifierStateTracker
  settingsManager :: SettingsManager
  osdManager :: ModifiersOSDManager
  panelIndicator :: PanelIndicator
  console :: "string list"

definition LOG_TAG :: string where
  "LOG_TAG = ''KMS-Ext:''"

text \<open>\<^verbatim>\<open>enable\<close>, up to the start of the timer.\<close>

definition enable :: "Settings \<Rightarrow> Shell \<Rightarrow> Shell \<times> Extension" where
  "enable s sh =
     (case new_ModifiersOSDManager sh of
        (sh', mgr) \<Rightarrow>
          (sh', \<lparr>stateTracker = reset,
                 settingsManager = SettingsManager_initialize s new_SettingsManager,
                 osdManager = mgr,
                 panelIndicator = PanelIndicator_initialize new_PanelIndicator,
                 console = []\<rparr>))"

text \<open>
  The handler of the settings object's \<^verbatim>\<open>changed\<close> signal, with the callback that
  \<^verbatim>\<open>enable\<close> installs: reload the symbols, then set \<^verbatim>\<open>previousState\<close> to null.
  \<open>s\<close> is the content of the settings object after the change.
\<close>

definition settings_changed :: "Settings \<Rightarrow> Extension \<Rightarrow> Extension" where
  "settings_changed s ext =
     (let ext1 = ext\<lparr>settingsManager := loadSettings ((settingsManager ext)\<lparr>settings := Some s\<rparr>)\<rparr>
      in ext1\<lparr>stateTracker := (stateTracker ext1)\<lparr>previousState := None\<rparr>\<rparr>)"

text \<open>
  \<^verbatim>\<open>getCurrentModifierState\<close>: the third component of \<^verbatim>\<open>global.get_pointer()\<close>, or 0
  when it is undefined.
\<close>

definition getCurrentModifierState :: "modifiers option \<Rightarrow> modifiers" where
  "getCurrentModifierState pointer = (case pointer of Some m \<Rightarrow> m | None \<Rightarrow> 0)"

text \<open>
  \<^verbatim>\<open>_showNotification\<close>: whatever \<^verbatim>\<open>show\<close> raises is caught and written to the
  console.
\<close>

definition showNotification :: "host_fault \<Rightarrow> string \<Rightarrow> string \<Rightarrow> Extension \<Rightarrow> Extension" where
  "showNotification fault title message ext =
     (case ModifiersOSDManager_show fault title message (osdManager ext) of
        (None, mgr) \<Rightarrow> ext\<lparr>osdManager := mgr\<rparr>
      | (Some error, mgr) \<Rightarrow>
          ext\<lparr>osdManager := mgr,
              console := console ext @ [LOG_TAG @ '' Error showing OSD notification: '' @ error]\<rparr>)"

definition handleModifierNotifications :: "host_fault \<Rightarrow> Extension \<Rightarrow> Extension" where
  "handleModifierNotifications fault ext =
     (case previousState (stateTracker ext) of
        None \<Rightarrow> ext
      | Some _ \<Rightarrow>
          (let ext1 =
                 (case getModifierChangeInfo LOCK_MASK (stateTracker ext) of
                    Some capsChange \<Rightarrow>
                      showNotification fault (if isActive capsChange then ''On'' else ''Off'') ''Caps'' ext
                  | None \<Rightarrow> ext);
               ext2 =
                 (case getModifierChangeInfo MOD2_MASK (stateTracker ext1) of
                    Some numChange \<Rightarrow>
                      showNotification fault (if isActive numChange then ''On'' else ''Off'') ''Num'' ext1
                  | None \<Rightarrow> ext1);
               ext3 =
                 (case getModifierChangeInfo MOD3_MASK (stateTracker ext2) of
                    Some scrollChange \<Rightarrow>
                      showNotification fault (if isActive scrollChange then ''On'' else ''Off'') ''Scroll'' ext2
                  | None \<Rightarrow> ext2)
           in ext3))"

text \<open>
  The loop of \<^verbatim>\<open>_updatePanelIndicator\<close>: the symbols of the active modifiers are
  pushed onto \<^verbatim>\<open>activeModifiers\<close> in the order of the list.
\<close>

fun collect_active ::
  "ModifierStateTracker \<Rightarrow> (modifiers \<times> string) list \<Rightarrow> string list \<Rightarrow> string list" where
  "collect_active t [] activeModifiers = activeModifiers"
| "collect_active t ((msk, symbol) # rest) activeModifiers =
     collect_active t rest
       (if isModifierActive msk t then activeModifiers @ [symbol] else activeModifiers)"

text \<open>\<^verbatim>\<open>Array.prototype.join\<close> on strings.\<close>

fun join :: "string \<Rightarrow> string list \<Rightarrow> string" where
  "join sep [] = []"
| "join sep [x] = x"
| "join sep (x # y # ys) = x @ sep @ join sep (y # ys)"

definition updatePanelIndicator :: "Extension \<Rightarrow> Extension" where
  "updatePanelIndicator ext =
     (let activeModifiers =
            collect_active (stateTracker ext) (symbols_modifiers (settingsManager ext)) [];
          indicatorText = join '' '' activeModifiers
      in ext\<lparr>panelIndicator := updateText indicatorText (panelIndicator ext)\<rparr>)"

datatype source_result = SOURCE_CONTINUE | SOURCE_REMOVE

text \<open>
  \<^verbatim>\<open>_onUpdate\<close>, the timer callback. \<open>pointer\<close> is the modifier component that the
  host reports for this poll.
\<close>

definition onUpdate :: "host_fault \<Rightarrow> modifiers option \<Rightarrow> Extension \<Rightarrow> source_result \<times> Extension" where
  "onUpdate fault pointer ext =
     (let currentState = getCurrentModifierState pointer;
          ext1 = ext\<lparr>stateTracker := updateState currentState (stateTracker ext)\<rparr>
      in if \<not> hasStateChanged (stateTracker ext1) then (SOURCE_CONTINUE, ext1)
         else (SOURCE_CONTINUE, updatePanelIndicator (handleModifierNotifications fault ext1)))"

subsection \<open>A poll in which toolkit calls raise\<close>









section \<open>The preferences window\<close>

text \<open>
  The keys of the eight symbols and the one built-in preset, \<^verbatim>\<open>Symbols\<close>. Four of
  its strings are single characters outside ASCII (U+21E7, U+2387, U+21F3, U+2756);
  they are written as their UTF-8 bytes.
\<close>

definition CONFIG_KEYS_modifiers :: "string list" where
  "CONFIG_KEYS_modifiers =
     [''shift-symbol'', ''caps-symbol'', ''control-symbol'', ''alt-symbol'',
      ''num-symbol'', ''scroll-symbol'', ''super-symbol'', ''altgr-symbol'']"

definition UPWARDS_WHITE_ARROW :: string where
  "UPWARDS_WHITE_ARROW = [CHR 0xE2, CHR 0x87, CHR 0xA7]"

definition ALTERNATIVE_KEY_SYMBOL :: string where
  "ALTERNATIVE_KEY_SYMBOL = [CHR 0xE2, CHR 0x8E, CHR 0x87]"

definition UP_DOWN_WHITE_ARROW :: string where
  "UP_DOWN_WHITE_ARROW = [CHR 0xE2, CHR 0x87, CHR 0xB3]"

definition BLACK_DIAMOND_MINUS_WHITE_X :: string where
  "BLACK_DIAMOND_MINUS_WHITE_X = [CHR 0xE2, CHR 0x9D, CHR 0x96]"

definition SYMBOL_PRESETS_Symbols :: "string list" where
  "SYMBOL_PRESETS_Symbols =
     [UPWARDS_WHITE_ARROW, ''Caps'', ''^'', ALTERNATIVE_KEY_SYMBOL, ''Num'',
      UP_DOWN_WHITE_ARROW, BLACK_DIAMOND_MINUS_WHITE_X, ALTERNATIVE_KEY_SYMBOL]"

subsection \<open>SettingsManager of the preferences\<close>

text \<open>
  \<^verbatim>\<open>currentSymbols\<close> and \<^verbatim>\<open>savedSymbols\<close> are JavaScript objects: maps from key to
  string. \<^verbatim>\<open>Object.fromEntries\<close> lets a later entry win.
\<close>

record PrefsSettingsManager =
  prefs_settings :: Settings
  currentSymbols :: "string \<rightharpoonup> string"
  savedSymbols :: "string \<rightharpoonup> string"

definition getSymbolsFromSettings :: "Settings \<Rightarrow> string list \<Rightarrow> (string \<rightharpoonup> string)" where
  "getSymbolsFromSettings s ks = map_of (rev (map (\<lambda>key. (key, get_string s key)) ks))"

definition PrefsSettingsManager_initialize :: "Settings \<Rightarrow> PrefsSettingsManager" where
  "PrefsSettingsManager_initialize s =
     \<lparr>prefs_settings = s,
      currentSymbols = getSymbolsFromSettings s CONFIG_KEYS_modifiers,
      savedSymbols = saved_symbols s\<rparr>"

definition getSchemaDefaults :: "PrefsSettingsManager \<Rightarrow> string list \<Rightarrow> string list" where
  "getSchemaDefaults psm ks = map (get_default_value (prefs_settings psm)) ks"

subsection \<open>EntryManager and SimpleManager\<close>

text \<open>
  An entry of the map holds the text of its \<^verbatim>\<open>Gtk.Entry\<close> (the handler id that the
  source keeps beside it plays no part below). \<^verbatim>\<open>getEntryText\<close> is the empty
  string for a key without entry.
\<close>

record EntryData =
  entry_text :: string

record EntryManager =
  entries :: "string \<rightharpoonup> EntryData"

definition getEntryText :: "string \<Rightarrow> EntryManager \<Rightarrow> string" where
  "getEntryText key em = (case entries em key of Some d \<Rightarrow> entry_text d | None \<Rightarrow> [])"

text \<open>
  The settings manager that the source keeps as a field of \<^verbatim>\<open>SimpleManager\<close> is shared
  with the rest of the window; here it is an argument of the functions that read it.
\<close>

record SimpleManager =
  keys :: "string list"
  defaultValues :: "string list"

text \<open>Reading \<^verbatim>\<open>defaultValues[i]\<close>: \<^verbatim>\<open>undefined\<close> past the end.\<close>

definition array_index :: "'a list \<Rightarrow> nat \<Rightarrow> 'a option" where
  "array_index xs i = (if i < length xs then Some (xs ! i) else None)"

text \<open>
  \<^verbatim>\<open>keys.every((key, i) => getEntryText(key) === defaultValues[i])\<close> and
  \<^verbatim>\<open>keys.every(key => getEntryText(key) === currentSymbols[key])\<close>; a string is never
  identical to \<^verbatim>\<open>undefined\<close>.
\<close>

definition isCurrentEqualToDefault :: "SimpleManager \<Rightarrow> EntryManager \<Rightarrow> bool" where
  "isCurrentEqualToDefault sm em =
     list_all (\<lambda>(i, key). Some (getEntryText key em) = array_index (defaultValues sm) i)
       (enumerate 0 (keys sm))"

definition isCurrentEqualToSaved ::
  "SimpleManager \<Rightarrow> PrefsSettingsManager \<Rightarrow> EntryManager \<Rightarrow> bool" where
  "isCurrentEqualToSaved sm psm em =
     list_all (\<lambda>key. Some (getEntryText key em) = currentSymbols psm key) (keys sm)"

subsection \<open>GroupBuilder\<close>

record Button =
  sensitive :: bool

text \<open>What \<^verbatim>\<open>createGroup\<close> builds and its callbacks share.\<close>

record PrefsGroup =
  resetButton :: Button
  saveButton :: Button
  entryManager :: EntryManager
  simpleManager :: SimpleManager

definition updateButtonStates :: "PrefsSettingsManager \<Rightarrow> PrefsGroup \<Rightarrow> PrefsGroup" where
  "updateButtonStates psm g =
     (let isDefault = isCurrentEqualToDefault (simpleManager g) (entryManager g);
          isSaved = isCurrentEqualToSaved (simpleManager g) psm (entryManager g)
      in g\<lparr>resetButton := (resetButton g)\<lparr>sensitive := \<not> isDefault\<rparr>,
           saveButton := (saveButton g)\<lparr>sensitive := \<not> isSaved\<rparr>\<rparr>)"

text \<open>
  The user edits the entry of \<open>key\<close>: the toolkit stores the new text and raises
  \<^verbatim>\<open>changed\<close>, whose handler calls \<^verbatim>\<open>_updateButtonStates\<close>.
\<close>

text \<open>
  \<^verbatim>\<open>_createEntryRows\<close>: one entry for each key, in the order of the keys, holding
  \<^verbatim>\<open>currentSymbols[key] || ''\<close>. The schema is taken to know every key.
\<close>

fun createEntryRows :: "PrefsSettingsManager \<Rightarrow> string list \<Rightarrow> EntryManager \<Rightarrow> EntryManager" where
  "createEntryRows psm [] em = em"
| "createEntryRows psm (key # ks) em =
     createEntryRows psm ks
       (em\<lparr>entries := (entries em)(key \<mapsto>
          \<lparr>entry_text = (case currentSymbols psm key of Some v \<Rightarrow> v | None \<Rightarrow> [])\<rparr>)\<rparr>)"

text \<open>
  \<^verbatim>\<open>createGroup\<close>: the buttons (sensitive, as the toolkit creates them), the
  button logic with its first \<^verbatim>\<open>_updateButtonStates\<close>, then the entry rows.
\<close>

definition createGroup :: "PrefsSettingsManager \<Rightarrow> string list \<Rightarrow> string list \<Rightarrow> PrefsGroup" where
  "createGroup psm ks defaults =
     (let g = updateButtonStates psm
                \<lparr>resetButton = \<lparr>sensitive = True\<rparr>, saveButton = \<lparr>sensitive = True\<rparr>,
                 entryManager = \<lparr>entries = Map.empty\<rparr>,
                 simpleManager = \<lparr>keys = ks, defaultValues = defaults\<rparr>\<rparr>
      in g\<lparr>entryManager := createEntryRows psm ks (entryManager g)\<rparr>)"

text \<open>
  \<^verbatim>\<open>fillPreferencesWindow\<close>: the one group of the window gets the keys of
  \<^verbatim>\<open>CONFIG_KEYS.modifiers\<close> and, as default values, the \<^verbatim>\<open>Symbols\<close> preset.
\<close>

definition fillPreferencesWindow :: "Settings \<Rightarrow> PrefsSettingsManager \<times> PrefsGroup" where
  "fillPreferencesWindow s =
     (let psm = PrefsSettingsManager_initialize s
      in (psm, createGroup psm CONFIG_KEYS_modifiers SYMBOL_PRESETS_Symbols))"

definition entry_changed :: "string \<Rightarrow> string \<Rightarrow> PrefsSettingsManager \<Rightarrow> PrefsGroup \<Rightarrow> PrefsGroup" where
  "entry_changed key new_text psm g =
     (case entries (entryManager g) key of
        None \<Rightarrow> g
      | Some d \<Rightarrow>
          updateButtonStates psm
            (g\<lparr>entryManager :=
                 (entryManager g)\<lparr>entries := (entries (entryManager g))(key \<mapsto> d\<lparr>entry_text := new_text\<rparr>)\<rparr>\<rparr>))"

section \<open>Specification-side definitions and example data\<close>





text \<open>
  Example data: settings, a shell with one monitor, a host that never fails and one
  that always does, the extension after \<^verbatim>\<open>enable\<close>, and after a poll that found
  Caps Lock on.
\<close>

definition example_settings :: Settings where
  "example_settings =
     \<lparr>get_string = (\<lambda>key. if key = ''caps-symbol'' then ''Caps''
                         else if key = ''num-symbol'' then ''Num''
                         else if key = ''shift-symbol'' then ''Shift'' else ''x''),
      get_default_value = (\<lambda>key. ''x''),
      saved_symbols = Map.empty\<rparr>"

definition example_shell :: Shell where
  "example_shell = \<lparr>monitors = 1, uiGroup = [], allocated = 0\<rparr>"

definition no_fault :: host_fault where
  "no_fault = (\<lambda>i. None)"

definition example_extension :: Extension where
  "example_extension = snd (enable example_settings example_shell)"

definition other_settings :: Settings where
  "other_settings = example_settings\<lparr>get_string := (\<lambda>key. ''new'')\<rparr>"



text \<open>
  The example extension after a first poll that found no modifier, and after a second
  poll that found Caps Lock and Num Lock on; a host on which every OSD call raises,
  and one on which the assignment to the panel label raises.
\<close>

definition idle_extension :: Extension where
  "idle_extension = snd (onUpdate no_fault (Some 0) example_extension)"

definition lock_extension :: Extension where
  "lock_extension = snd (onUpdate no_fault (Some 18) idle_extension)"



subsection \<open>The OSD windows across monitor changes\<close>

text \<open>
  The OSDs that the first loop creates for the \<open>k\<close> slots from \<open>i\<close> on, when \<open>a\<close>
  objects have been allocated before.
\<close>

definition fresh_osds :: "nat \<Rightarrow> nat \<Rightarrow> nat \<Rightarrow> ModifiersOSD list" where
  "fresh_osds i k a =
     map (\<lambda>j. \<lparr>osd_id = a + j, monitorIndex = i + j, titleLabel = [], statusLabel = [],
                visible = False\<rparr>) [0..<k]"

text \<open>
  A slot is occupied when it holds an OSD that has been allocated and is still in the
  scene graph. The invariant of the manager: slot \<open>i\<close> holds an OSD of monitor \<open>i\<close>
  for every monitor, there are no other slots, the OSDs are pairwise different
  objects, and every slot is occupied.
\<close>

definition occupied :: "ModifiersOSD option \<Rightarrow> Shell \<Rightarrow> bool" where
  "occupied slot sh =
     (case slot of None \<Rightarrow> False
      | Some w \<Rightarrow> osd_id w < allocated sh \<and> osd_id w \<in> set (uiGroup sh))"

definition osd_inv :: "Shell \<times> ModifiersOSDManager \<Rightarrow> bool" where
  "osd_inv st =
     (case st of (sh, mgr) \<Rightarrow>
        map (map_option monitorIndex) (osdWindows mgr) = map Some [0..<monitors sh] \<and>
        distinct (map (map_option osd_id) (osdWindows mgr)) \<and>
        list_all (\<lambda>slot. occupied slot sh) (osdWindows mgr))"

text \<open>
  The reading of C7 as it is written: after the event every OSD of before has left the
  scene graph, and every monitor has an OSD that was allocated during the event.
\<close>

definition spec_destroyed_and_recreated ::
  "Shell \<times> ModifiersOSDManager \<Rightarrow> Shell \<times> ModifiersOSDManager \<Rightarrow> bool" where
  "spec_destroyed_and_recreated before after =
     (list_all (\<lambda>slot. case slot of None \<Rightarrow> True
                 | Some w \<Rightarrow> osd_id w \<notin> set (uiGroup (fst after)))
        (osdWindows (snd before)) \<and>
      map (map_option monitorIndex) (osdWindows (snd after)) =
        map Some [0..<monitors (fst after)] \<and>
      list_all (\<lambda>slot. case slot of None \<Rightarrow> False
                 | Some w \<Rightarrow> allocated (fst before) \<le> osd_id w \<and>
                     osd_id w \<in> set (uiGroup (fst after)))
        (osdWindows (snd after)))"

text \<open>A shell with two monitors, after the constructor of the manager.\<close>

definition example_monitors :: "Shell \<times> ModifiersOSDManager" where
  "example_monitors = new_ModifiersOSDManager \<lparr>monitors = 2, uiGroup = [], allocated = 0\<rparr>"

text \<open>
  The reading of C8 as it is written, for the Reset button: some key's entry text
  differs from the default that the schema gives for the key.
\<close>

definition spec_differs_from_schema_default :: "PrefsSettingsManager \<Rightarrow> PrefsGroup \<Rightarrow> bool" where
  "spec_differs_from_schema_default psm g =
     list_ex (\<lambda>key. getEntryText key (entryManager g) \<noteq> get_default_value (prefs_settings psm) key)
       (keys (simpleManager g))"

text \<open>
  Settings that store the \<^verbatim>\<open>Symbols\<close> preset, under a schema whose default for
  every key is \<open>x\<close>; the preferences window opened over them.
\<close>

definition preset_settings :: Settings where
  "preset_settings =
     \<lparr>get_string =
        (\<lambda>key. case map_of (zip CONFIG_KEYS_modifiers SYMBOL_PRESETS_Symbols) key of
                 Some v \<Rightarrow> v | None \<Rightarrow> []),
      get_default_value = (\<lambda>key. ''x''),
      saved_symbols = Map.empty\<rparr>"

definition example_prefs :: PrefsSettingsManager where
  "example_prefs = fst (fillPreferencesWindow preset_settings)"

definition example_group :: PrefsGroup where
  "example_group = snd (fillPreferencesWindow preset_settings)"

section \<open>Properties of the tracker\<close>

lemmas mask_defs =
  SHIFT_MASK_def LOCK_MASK_def CONTROL_MASK_def MOD1_MASK_def
  MOD2_MASK_def MOD3_MASK_def MOD4_MASK_def MOD5_MASK_def

lemma updateState_fields:
  "currentState (updateState n t) = n"
  "previousState (updateState n t) = Some (currentState t)"
  by (simp_all add: updateState_def)

lemma getModifierChangeInfo_Some_iff:
  "getModifierChangeInfo m t = Some ci \<longleftrightarrow>
     (\<exists>prev. previousState t = Some prev \<and>
        (prev AND m \<noteq> 0) \<noteq> (currentState t AND m \<noteq> 0) \<and>
        ci = \<lparr>wasActive = (prev AND m \<noteq> 0), isActive = (currentState t AND m \<noteq> 0)\<rparr>)"
  by (auto simp: getModifierChangeInfo_def Let_def split: option.splits)

text \<open>
  C2. For every mask \<open>m\<close> and every tracker state \<open>t\<close> (in particular every state
  left by \<open>updateState\<close>, whose previousState is the old current state and so is not
  null): \<open>getModifierChangeInfo m\<close> is non-null exactly when previousState is non-null
  and the \<open>m\<close>-bit differs between previousState and currentState; a returned record
  carries the \<open>m\<close>-bit of previousState as \<open>wasActive\<close> and that of currentState as
  \<open>isActive\<close>; \<open>hasStateChanged\<close> is true exactly when the two states differ.
\<close>

theorem C2_change_info:
  "(getModifierChangeInfo m t \<noteq> None) =
     (\<exists>prev. previousState t = Some prev \<and>
        (prev AND m \<noteq> 0) \<noteq> (currentState t AND m \<noteq> 0)) \<and>
   (\<forall>ci. getModifierChangeInfo m t = Some ci \<longrightarrow>
      (\<exists>prev. previousState t = Some prev \<and>
         wasActive ci = (prev AND m \<noteq> 0) \<and>
         isActive ci = (currentState t AND m \<noteq> 0))) \<and>
   hasStateChanged t = (previousState t \<noteq> Some (currentState t)) \<and>
   previousState (updateState n t) = Some (currentState t) \<and>
   currentState (updateState n t) = n"
proof -
  have "(getModifierChangeInfo m t \<noteq> None) =
     (\<exists>prev. previousState t = Some prev \<and>
        (prev AND m \<noteq> 0) \<noteq> (currentState t AND m \<noteq> 0))"
    by (auto simp: getModifierChangeInfo_def Let_def split: option.splits)
  moreover have "\<forall>ci. getModifierChangeInfo m t = Some ci \<longrightarrow>
      (\<exists>prev. previousState t = Some prev \<and>
         wasActive ci = (prev AND m \<noteq> 0) \<and>
         isActive ci = (currentState t AND m \<noteq> 0))"
    by (auto simp: getModifierChangeInfo_Some_iff)
  moreover have "hasStateChanged t = (previousState t \<noteq> Some (currentState t))"
    by (auto simp: hasStateChanged_def)
  ultimately show ?thesis
    by (simp add: updateState_fields)
qed

text \<open>
  Caps Lock goes on in the first poll after \<open>reset\<close>: the change record is
  \<open>(wasActive = False, isActive = True)\<close>.
\<close>

theorem C2_change_info_witness:
  "getModifierChangeInfo LOCK_MASK (updateState 2 reset) =
     Some \<lparr>wasActive = False, isActive = True\<rparr> \<and>
   wasActive \<lparr>wasActive = False, isActive = True\<rparr> = (currentState reset AND LOCK_MASK \<noteq> 0) \<and>
   hasStateChanged (updateState 2 reset)"
  using C2_change_info [of LOCK_MASK "updateState 2 reset" 0]
  by (simp add: getModifierChangeInfo_def updateState_def reset_def LOCK_MASK_def
        hasStateChanged_def)

section \<open>Properties of the extension\<close>

lemma stateTracker_showNotification [simp]:
  "stateTracker (showNotification fault title message ext) = stateTracker ext"
  by (simp add: showNotification_def split: prod.splits option.splits)







text \<open>The example states, evaluated.\<close>

lemma example_extension_eq:
  "example_extension =
    \<lparr>stateTracker = \<lparr>currentState = 0, previousState = None\<rparr>,
     settingsManager = \<lparr>settings = Some example_settings,
       symbols_modifiers = [(1, ''Shift''), (2, ''Caps''), (4, ''x''), (8, ''x''),
         (16, ''Num''), (32, ''x''), (64, ''x''), (128, ''x'')]\<rparr>,
     osdManager = \<lparr>osdWindows = [Some \<lparr>osd_id = 0, monitorIndex = 0, titleLabel = [],
        statusLabel = [], visible = False\<rparr>]\<rparr>,
     panelIndicator = \<lparr>label = Some []\<rparr>, console = []\<rparr>"
  by (simp add: example_extension_def enable_def
      new_ModifiersOSDManager_def onMonitorsChanged_def example_shell_def array_get_def
      array_set_def array_set_length_def new_ModifiersOSD_def
      PanelIndicator_initialize_def new_PanelIndicator_def
      SettingsManager_initialize_def new_SettingsManager_def loadSettings_def
      example_settings_def mask_defs reset_def create_loop.simps remove_loop.simps)

lemma idle_extension_eq:
  "idle_extension =
     example_extension\<lparr>stateTracker := \<lparr>currentState = 0, previousState = Some 0\<rparr>\<rparr>"
  by (simp add: idle_extension_def example_extension_eq onUpdate_def Let_def
      getCurrentModifierState_def updateState_def hasStateChanged_def)

lemmas poll_defs =
  onUpdate_def Let_def getCurrentModifierState_def updateState_def hasStateChanged_def
  handleModifierNotifications_def getModifierChangeInfo_def showNotification_def
  ModifiersOSDManager_show_def ModifiersOSD_show_def no_fault_def mask_defs
  updatePanelIndicator_def isModifierActive_def updateText_def

lemma lock_extension_eq:
  "lock_extension =
     example_extension\<lparr>stateTracker := \<lparr>currentState = 18, previousState = Some 0\<rparr>,
       osdManager := \<lparr>osdWindows = [Some \<lparr>osd_id = 0, monitorIndex = 0, titleLabel = ''On'',
          statusLabel = ''Num'', visible = True\<rparr>]\<rparr>,
       panelIndicator := \<lparr>label = Some ''Caps Num''\<rparr>\<rparr>"
  by (simp add: lock_extension_def idle_extension_eq example_extension_eq poll_defs)




lemma collect_active_filter:
  "collect_active t ms acc = acc @ map snd (filter (\<lambda>(msk, symbol). isModifierActive msk t) ms)"
  by (induction ms arbitrary: acc) auto

lemma label_updateText:
  "label p \<noteq> None \<Longrightarrow> label (updateText text p) = Some text"
  by (auto simp: updateText_def)

text \<open>
  C3. After \<^verbatim>\<open>_updatePanelIndicator\<close>, the text of the panel label (which exists
  once the indicator is initialised) is the symbols of exactly the entries of
  \<^verbatim>\<open>symbols.modifiers\<close> whose mask has a bit set in the current state, in the order of
  that list, joined with one space; it is empty when no entry is active.
\<close>

theorem C3_panel_text:
  assumes "label (panelIndicator ext) \<noteq> None"
  shows "label (panelIndicator (updatePanelIndicator ext)) =
           Some (join '' ''
             (map snd
                (filter (\<lambda>(msk, symbol). currentState (stateTracker ext) AND msk \<noteq> 0)
                   (symbols_modifiers (settingsManager ext))))) \<and>
         ((\<forall>(msk, symbol) \<in> set (symbols_modifiers (settingsManager ext)).
              currentState (stateTracker ext) AND msk = 0) \<longrightarrow>
            label (panelIndicator (updatePanelIndicator ext)) = Some [])"
proof -
  let ?active = "\<lambda>(msk, symbol). currentState (stateTracker ext) AND msk \<noteq> 0"
  have eq: "(\<lambda>(msk, symbol). isModifierActive msk (stateTracker ext)) = ?active"
    by (simp add: isModifierActive_def)
  have lab: "label (panelIndicator (updatePanelIndicator ext)) =
      Some (join '' '' (map snd (filter ?active (symbols_modifiers (settingsManager ext)))))"
    using assms
    by (simp add: updatePanelIndicator_def Let_def collect_active_filter eq label_updateText)
  have "filter ?active (symbols_modifiers (settingsManager ext)) = []"
    if "\<forall>(msk, symbol) \<in> set (symbols_modifiers (settingsManager ext)).
              currentState (stateTracker ext) AND msk = 0"
    using that by (auto simp: filter_empty_conv)
  with lab show ?thesis by simp
qed

text \<open>
  Shift, Caps Lock and Num Lock held: three symbols in the order of the list. No
  modifier held: the empty text.
\<close>

theorem C3_panel_text_witness:
  "label (panelIndicator example_extension) \<noteq> None \<and>
   label (panelIndicator (updatePanelIndicator
      (example_extension\<lparr>stateTracker := \<lparr>currentState = 19, previousState = Some 0\<rparr>\<rparr>))) =
     Some ''Shift Caps Num'' \<and>
   label (panelIndicator (updatePanelIndicator
      (example_extension\<lparr>stateTracker := \<lparr>currentState = 0, previousState = Some 19\<rparr>\<rparr>))) =
     Some []"
  using C3_panel_text
    [of "example_extension\<lparr>stateTracker := \<lparr>currentState = 19, previousState = Some 0\<rparr>\<rparr>"]
    C3_panel_text
    [of "example_extension\<lparr>stateTracker := \<lparr>currentState = 0, previousState = Some 19\<rparr>\<rparr>"]
  by (simp add: example_extension_def enable_def new_ModifiersOSDManager_def
        onMonitorsChanged_def example_shell_def array_get_def array_set_def
        array_set_length_def new_ModifiersOSD_def
        PanelIndicator_initialize_def new_PanelIndicator_def
        SettingsManager_initialize_def new_SettingsManager_def loadSettings_def
        example_settings_def mask_defs)

text \<open>
  C4. A poll that finds the bitmask recorded by the previous poll only updates the
  tracker: the panel label, the OSD windows and the console are as before.
\<close>

theorem C4_unchanged_poll:
  assumes "getCurrentModifierState pointer = currentState (stateTracker ext)"
  shows "onUpdate fault pointer ext =
           (SOURCE_CONTINUE,
            ext\<lparr>stateTracker :=
              \<lparr>currentState = currentState (stateTracker ext),
               previousState = Some (currentState (stateTracker ext))\<rparr>\<rparr>) \<and>
         panelIndicator (snd (onUpdate fault pointer ext)) = panelIndicator ext \<and>
         osdManager (snd (onUpdate fault pointer ext)) = osdManager ext \<and>
         console (snd (onUpdate fault pointer ext)) = console ext"
  using assms
  by (simp add: onUpdate_def Let_def hasStateChanged_def updateState_def)

text \<open>
  Caps Lock and Num Lock are on, the panel reads \<open>Caps Num\<close> and the OSD shows On,
  Num. Every symbol is changed to \<open>new\<close>, and the next poll finds the same bitmask:
  the panel still reads \<open>Caps Num\<close>, where a render would have written
  \<open>new new\<close>, and the OSD is as it was.
\<close>

theorem C4_unchanged_poll_witness:
  "label (panelIndicator (settings_changed other_settings lock_extension)) = Some ''Caps Num'' \<and>
   map snd (symbols_modifiers (settingsManager (settings_changed other_settings lock_extension))) =
     [''new'', ''new'', ''new'', ''new'', ''new'', ''new'', ''new'', ''new''] \<and>
   getCurrentModifierState (Some 18) =
     currentState (stateTracker (settings_changed other_settings lock_extension)) \<and>
   panelIndicator (snd (onUpdate no_fault (Some 18) (settings_changed other_settings lock_extension))) =
     \<lparr>label = Some ''Caps Num''\<rparr> \<and>
   osdWindows (osdManager (snd (onUpdate no_fault (Some 18)
       (settings_changed other_settings lock_extension)))) =
     [Some \<lparr>osd_id = 0, monitorIndex = 0, titleLabel = ''On'', statusLabel = ''Num'',
             visible = True\<rparr>] \<and>
   label (panelIndicator (updatePanelIndicator (settings_changed other_settings lock_extension))) =
     Some ''new new''"
proof -
  have st: "settings_changed other_settings lock_extension =
     lock_extension\<lparr>stateTracker := \<lparr>currentState = 18, previousState = None\<rparr>,
       settingsManager := \<lparr>settings = Some other_settings,
         symbols_modifiers = [(1, ''new''), (2, ''new''), (4, ''new''), (8, ''new''),
           (16, ''new''), (32, ''new''), (64, ''new''), (128, ''new'')]\<rparr>\<rparr>"
    by (simp add: settings_changed_def Let_def lock_extension_eq example_extension_eq
        loadSettings_def other_settings_def mask_defs)
  have cur: "getCurrentModifierState (Some 18) =
     currentState (stateTracker (settings_changed other_settings lock_extension))"
    unfolding st by (simp add: getCurrentModifierState_def lock_extension_eq)
  show ?thesis
    using C4_unchanged_poll [OF cur, of no_fault] cur
    unfolding st
    by (simp add: lock_extension_eq example_extension_eq updatePanelIndicator_def
        isModifierActive_def updateText_def)
qed

text \<open>
  A run of the manager is \<^verbatim>\<open>initialize\<close> followed by any number of changes of the
  settings; the manager of the extension is changed by nothing else.
\<close>

lemma SettingsManager_changed_loaded:
  "settings (SettingsManager_changed s sm) = Some s \<and>
   symbols_modifiers (SettingsManager_changed s sm) =
     [(SHIFT_MASK, get_string s ''shift-symbol''),
      (LOCK_MASK, get_string s ''caps-symbol''),
      (CONTROL_MASK, get_string s ''control-symbol''),
      (MOD1_MASK, get_string s ''alt-symbol''),
      (MOD2_MASK, get_string s ''num-symbol''),
      (MOD3_MASK, get_string s ''scroll-symbol''),
      (MOD4_MASK, get_string s ''super-symbol''),
      (MOD5_MASK, get_string s ''altgr-symbol'')]"
  by (simp add: SettingsManager_changed_def loadSettings_def)

lemma SettingsManager_initialize_changed:
  "SettingsManager_initialize s sm = SettingsManager_changed s sm"
  by (simp add: SettingsManager_initialize_def SettingsManager_changed_def)

lemma fold_SettingsManager_changed:
  "fold SettingsManager_changed ss (SettingsManager_changed s sm) =
     SettingsManager_changed (last (s # ss))
       (fold SettingsManager_changed (butlast (s # ss)) sm)"
proof (induction ss arbitrary: s sm)
  case Nil
  then show ?case by simp
next
  case (Cons s' ss)
  show ?case
    using Cons.IH [of s' "SettingsManager_changed s sm"] by simp
qed

lemma showNotification_frame:
  "settingsManager (showNotification fault title message ext) = settingsManager ext"
  "panelIndicator (showNotification fault title message ext) = panelIndicator ext"
  by (simp_all add: showNotification_def split: prod.splits option.splits)

lemma handleModifierNotifications_frame:
  "settingsManager (handleModifierNotifications fault ext) = settingsManager ext"
  "panelIndicator (handleModifierNotifications fault ext) = panelIndicator ext"
  by (simp_all add: handleModifierNotifications_def Let_def showNotification_frame
      split: option.splits)

lemma settingsManager_of_extension:
  "settingsManager (snd (enable s sh)) = SettingsManager_initialize s new_SettingsManager"
  "settingsManager (settings_changed s' ext) = SettingsManager_changed s' (settingsManager ext)"
  "settingsManager (snd (onUpdate fault pointer ext)) = settingsManager ext"
proof -
  show "settingsManager (snd (enable s sh)) = SettingsManager_initialize s new_SettingsManager"
    by (simp add: enable_def split: prod.splits)
  show "settingsManager (settings_changed s' ext) =
      SettingsManager_changed s' (settingsManager ext)"
    by (simp add: settings_changed_def SettingsManager_changed_def Let_def)
  show "settingsManager (snd (onUpdate fault pointer ext)) = settingsManager ext"
    by (simp add: onUpdate_def Let_def updatePanelIndicator_def
        handleModifierNotifications_frame)
qed

text \<open>
  C5. After every call to \<^verbatim>\<open>loadSettings\<close>, that is after \<^verbatim>\<open>initialize\<close> and after
  every further change of the settings, for all contents \<open>s\<close> and \<open>ss\<close> of the
  settings object: \<^verbatim>\<open>symbols.modifiers\<close> has exactly eight entries, whose masks are
  SHIFT, LOCK, CONTROL, MOD1, MOD2, MOD3, MOD4, MOD5 in this order, and whose symbols
  are the eight strings stored last. The settings object is never null in a run, so
  the guard of \<^verbatim>\<open>loadSettings\<close> is not taken.
\<close>

theorem C5_fixed_keys:
  "map fst (symbols_modifiers
      (fold SettingsManager_changed ss (SettingsManager_initialize s new_SettingsManager))) =
     [SHIFT_MASK, LOCK_MASK, CONTROL_MASK, MOD1_MASK, MOD2_MASK, MOD3_MASK, MOD4_MASK,
      MOD5_MASK] \<and>
   length (symbols_modifiers
      (fold SettingsManager_changed ss (SettingsManager_initialize s new_SettingsManager))) = 8 \<and>
   map snd (symbols_modifiers
      (fold SettingsManager_changed ss (SettingsManager_initialize s new_SettingsManager))) =
     map (get_string (last (s # ss)))
       [''shift-symbol'', ''caps-symbol'', ''control-symbol'', ''alt-symbol'',
        ''num-symbol'', ''scroll-symbol'', ''super-symbol'', ''altgr-symbol''] \<and>
   settings (fold SettingsManager_changed ss (SettingsManager_initialize s new_SettingsManager)) =
     Some (last (s # ss))"
proof -
  obtain sm' where "fold SettingsManager_changed ss
      (SettingsManager_initialize s new_SettingsManager) =
      SettingsManager_changed (last (s # ss)) sm'"
    unfolding SettingsManager_initialize_changed fold_SettingsManager_changed by blast
  then show ?thesis
    using SettingsManager_changed_loaded [of "last (s # ss)" sm'] by simp
qed

text \<open>
  The example settings at \<^verbatim>\<open>initialize\<close>, and after a change that sets every
  symbol to \<open>new\<close>.
\<close>

theorem C5_fixed_keys_witness:
  "symbols_modifiers (fold SettingsManager_changed [other_settings]
      (SettingsManager_initialize example_settings new_SettingsManager)) =
     [(1, ''new''), (2, ''new''), (4, ''new''), (8, ''new''), (16, ''new''), (32, ''new''),
      (64, ''new''), (128, ''new'')] \<and>
   symbols_modifiers (fold SettingsManager_changed []
      (SettingsManager_initialize example_settings new_SettingsManager)) =
     [(1, ''Shift''), (2, ''Caps''), (4, ''x''), (8, ''x''), (16, ''Num''), (32, ''x''),
      (64, ''x''), (128, ''x'')]"
  using C5_fixed_keys [of "[other_settings]" example_settings]
    C5_fixed_keys [of "[]" example_settings]
  by (simp add: SettingsManager_initialize_def SettingsManager_changed_def
      new_SettingsManager_def loadSettings_def example_settings_def other_settings_def mask_defs)










section \<open>Properties of the OSD manager\<close>

declare create_loop.simps [simp del] remove_loop.simps [simp del]

lemma fresh_osds_Suc:
  "fresh_osds i (Suc k) a =
     \<lparr>osd_id = a, monitorIndex = i, titleLabel = [], statusLabel = [], visible = False\<rparr> #
     fresh_osds (Suc i) k (Suc a)"
  by (simp add: fresh_osds_def upt_conv_Cons map_Suc_upt [symmetric] del: upt_Suc)

lemma upt_shift: "map (\<lambda>j. a + j) [0..<Suc k] = a # map (\<lambda>j. Suc a + j) [0..<k]"
  by (simp add: upt_conv_Cons map_Suc_upt [symmetric] del: upt_Suc)

lemma create_loop_append:
  "length ws = i \<Longrightarrow>
   create_loop i n (sh, ws) =
     (sh\<lparr>uiGroup := uiGroup sh @ map (\<lambda>j. allocated sh + j) [0..<n - i],
         allocated := allocated sh + (n - i)\<rparr>,
      ws @ map Some (fresh_osds i (n - i) (allocated sh)))"
proof (induction "n - i" arbitrary: i sh ws)
  case 0
  then show ?case
    by (subst create_loop.simps) (simp add: fresh_osds_def)
next
  case (Suc k)
  then have lt: "i < n" and k: "n - Suc i = k" and ni: "n - i = Suc k"
    by simp_all
  have get: "array_get ws i = None"
    using Suc.prems by (simp add: array_get_def)
  have set: "array_set ws i (Some w) = ws @ [Some w]" for w
    using Suc.prems by (simp add: array_set_def)
  have len: "length (ws @ [Some w]) = Suc i" for w
    using Suc.prems by simp
  show ?case
    apply (subst create_loop.simps)
    apply (simp add: lt get new_ModifiersOSD_def set)
    apply (subst Suc.hyps(1) [OF k [symmetric] len])
    apply (simp add: k ni fresh_osds_Suc upt_shift del: upt_Suc)
    done
qed

lemma create_loop_skip:
  "i \<le> length xs \<Longrightarrow>
   create_loop i n (sh, map Some xs) = create_loop (length xs) n (sh, map Some xs)"
proof (induction "length xs - i" arbitrary: i)
  case 0
  then show ?case by simp
next
  case (Suc k)
  then have lt: "i < length xs" by simp
  show ?case
  proof (cases "i < n")
    case True
    have "create_loop i n (sh, map Some xs) = create_loop (Suc i) n (sh, map Some xs)"
      using lt True by (subst create_loop.simps) (simp add: array_get_def)
    also have "\<dots> = create_loop (length xs) n (sh, map Some xs)"
      using Suc lt by (intro Suc.hyps(1)) simp_all
    finally show ?thesis .
  next
    case False
    then have "create_loop i n (sh, map Some xs) = (sh, map Some xs)"
      by (subst create_loop.simps) simp
    moreover have "create_loop (length xs) n (sh, map Some xs) = (sh, map Some xs)"
      using False lt by (subst create_loop.simps) simp
    ultimately show ?thesis by simp
  qed
qed

lemma remove_loop_tail:
  "length pre = i \<Longrightarrow>
   remove_loop i (sh, pre @ map Some ys) =
     (sh\<lparr>uiGroup := fold (\<lambda>w. removeAll (osd_id w)) ys (uiGroup sh)\<rparr>,
      pre @ replicate (length ys) None)"
proof (induction ys arbitrary: pre sh i)
  case Nil
  then show ?case by (subst remove_loop.simps) simp
next
  case (Cons y ys)
  have get: "array_get (pre @ map Some (y # ys)) i = Some y"
    using Cons.prems by (simp add: array_get_def nth_append)
  have set: "array_set (pre @ map Some (y # ys)) i None = (pre @ [None]) @ map Some ys"
    using Cons.prems by (simp add: array_set_def list_update_append)
  have len: "length (pre @ [None]) = Suc i"
    using Cons.prems by simp
  show ?case
    apply (subst remove_loop.simps)
    apply (simp only: get set option.case)
    apply (subst Cons.IH [OF len])
    using Cons.prems apply (simp add: ModifiersOSD_destroy_def replicate_app_Cons_same)
    done
qed

lemma array_set_length_prefix:
  "length pre = n \<Longrightarrow> array_set_length (pre @ rest) n = pre"
  by (simp add: array_set_length_def)

lemma onMonitorsChanged_closed:
  assumes "osdWindows mgr = map Some xs"
  shows "onMonitorsChanged (sh, mgr) =
     (sh\<lparr>uiGroup :=
           fold (\<lambda>w. removeAll (osd_id w)) (drop (monitors sh) xs)
             (uiGroup sh @ map (\<lambda>j. allocated sh + j) [0..<monitors sh - length xs]),
         allocated := allocated sh + (monitors sh - length xs)\<rparr>,
      mgr\<lparr>osdWindows :=
            map Some (take (monitors sh) xs @
              fresh_osds (length xs) (monitors sh - length xs) (allocated sh))\<rparr>)"
proof -
  define n where "n = monitors sh"
  define fr where "fr = fresh_osds (length xs) (n - length xs) (allocated sh)"
  define sh1 where "sh1 = sh\<lparr>uiGroup := uiGroup sh @ map (\<lambda>j. allocated sh + j) [0..<n - length xs],
         allocated := allocated sh + (n - length xs)\<rparr>"
  have lenfr: "length fr = n - length xs"
    by (simp add: fr_def fresh_osds_def)
  have c: "create_loop 0 n (sh, map Some xs) = (sh1, map Some (xs @ fr))"
    using create_loop_skip [of 0 xs n sh] create_loop_append [of "map Some xs" "length xs" n sh]
    by (simp add: sh1_def fr_def)
  have dr: "drop n (xs @ fr) = drop n xs"
    using lenfr by simp
  have "xs @ fr = take n (xs @ fr) @ drop n xs"
    by (metis append_take_drop_id dr)
  then have split: "map Some (xs @ fr) = map Some (take n (xs @ fr)) @ map Some (drop n xs)"
    by (metis map_append)
  have lenpre: "length (map Some (take n (xs @ fr))) = n"
    using lenfr by simp
  have r: "remove_loop n (sh1, map Some (xs @ fr)) =
      (sh1\<lparr>uiGroup := fold (\<lambda>w. removeAll (osd_id w)) (drop n xs) (uiGroup sh1)\<rparr>,
       map Some (take n (xs @ fr)) @ replicate (length (drop n xs)) None)"
    by (subst split) (rule remove_loop_tail [OF lenpre])
  have tk: "take n (xs @ fr) = take n xs @ fr"
    using lenfr by simp
  have asl: "array_set_length (map Some (take n (xs @ fr)) @ replicate k None) n =
      map Some (take n xs @ fr)" for k
    using array_set_length_prefix [OF lenpre] by (simp only: tk)
  have "onMonitorsChanged (sh, mgr) =
      (case create_loop 0 n (sh, map Some xs) of (sh1, ws1) \<Rightarrow>
       case remove_loop n (sh1, ws1) of (sh2, ws2) \<Rightarrow>
         (sh2, mgr\<lparr>osdWindows := array_set_length ws2 n\<rparr>))"
    by (simp add: onMonitorsChanged_def Let_def n_def assms)
  also have "\<dots> = (sh1\<lparr>uiGroup := fold (\<lambda>w. removeAll (osd_id w)) (drop n xs) (uiGroup sh1)\<rparr>,
       mgr\<lparr>osdWindows := map Some (take n xs @ fr)\<rparr>)"
    by (simp only: c r prod.case asl)
  finally show ?thesis
    by (simp add: sh1_def fr_def n_def)
qed

lemma set_fold_removeAll:
  "set (fold (\<lambda>w. removeAll (f w)) ds l) = set l - f ` set ds"
  by (induction ds arbitrary: l) auto

lemma upt_split: "m \<le> n \<Longrightarrow> [0..<m] @ [m..<n] = [0..<n]"
  using upt_add_eq_append [of 0 m "n - m"] by simp

lemma map_monitorIndex_fresh: "map monitorIndex (fresh_osds i k a) = [i..<i + k]"
  by (induction k) (simp_all add: fresh_osds_def)

lemma map_osd_id_fresh: "map osd_id (fresh_osds i k a) = [a..<a + k]"
  by (induction k) (simp_all add: fresh_osds_def)

lemma osd_inv_iff:
  "osd_inv (sh, mgr) \<longleftrightarrow>
     (\<exists>xs. osdWindows mgr = map Some xs \<and>
        map monitorIndex xs = [0..<monitors sh] \<and>
        distinct (map osd_id xs) \<and>
        (\<forall>w \<in> set xs. osd_id w < allocated sh \<and> osd_id w \<in> set (uiGroup sh)))"
proof
  assume inv: "osd_inv (sh, mgr)"
  let ?ws = "osdWindows mgr"
  have occ: "\<forall>slot \<in> set ?ws. occupied slot sh"
    using inv by (simp add: osd_inv_def list_all_iff)
  then have some: "\<forall>slot \<in> set ?ws. slot \<noteq> None"
    by (auto simp: occupied_def split: option.splits)
  then have ws: "?ws = map Some (map the ?ws)"
    by (simp add: map_idI)
  have mi: "map (map_option monitorIndex) ?ws = map Some [0..<monitors sh]"
    using inv by (simp add: osd_inv_def)
  have "map Some (map monitorIndex (map the ?ws)) = map (map_option monitorIndex) ?ws"
    using some by auto
  then have 1: "map monitorIndex (map the ?ws) = [0..<monitors sh]"
    using mi by (metis inj_Some inj_map_eq_map)
  have "map (map_option osd_id) ?ws = map Some (map osd_id (map the ?ws))"
    using some by auto
  moreover have "distinct (map (map_option osd_id) ?ws)"
    using inv by (simp add: osd_inv_def)
  ultimately have 2: "distinct (map osd_id (map the ?ws))"
    by (metis distinct_map)
  have 3: "\<forall>w \<in> set (map the ?ws). osd_id w < allocated sh \<and> osd_id w \<in> set (uiGroup sh)"
    using occ by (auto simp: occupied_def split: option.splits)
  show "\<exists>xs. osdWindows mgr = map Some xs \<and>
        map monitorIndex xs = [0..<monitors sh] \<and>
        distinct (map osd_id xs) \<and>
        (\<forall>w \<in> set xs. osd_id w < allocated sh \<and> osd_id w \<in> set (uiGroup sh))"
    using ws 1 2 3 by blast
next
  assume "\<exists>xs. osdWindows mgr = map Some xs \<and>
        map monitorIndex xs = [0..<monitors sh] \<and>
        distinct (map osd_id xs) \<and>
        (\<forall>w \<in> set xs. osd_id w < allocated sh \<and> osd_id w \<in> set (uiGroup sh))"
  then obtain xs where xs: "osdWindows mgr = map Some xs"
    "map monitorIndex xs = [0..<monitors sh]" "distinct (map osd_id xs)"
    "\<forall>w \<in> set xs. osd_id w < allocated sh \<and> osd_id w \<in> set (uiGroup sh)"
    by blast
  have a: "map (map_option monitorIndex) (map Some xs) = map Some (map monitorIndex xs)"
    by simp
  have b: "map (map_option osd_id) (map Some xs) = map Some (map osd_id xs)"
    by simp
  have c: "distinct (map Some (map osd_id xs))"
    using xs(3) by (simp add: distinct_map del: map_map)
  show "osd_inv (sh, mgr)"
    using xs(2,4) c
    by (simp add: osd_inv_def xs(1) a b list_all_iff occupied_def del: map_map)
qed

lemma onMonitorsChanged_inv:
  assumes ws: "osdWindows mgr = map Some xs"
    and mi: "map monitorIndex xs = [0..<length xs]"
    and di: "distinct (map osd_id xs)"
    and al: "\<forall>w \<in> set xs. osd_id w < allocated sh \<and> osd_id w \<in> set (uiGroup sh)"
  shows "osd_inv (onMonitorsChanged (sh, mgr))"
    and "monitors (fst (onMonitorsChanged (sh, mgr))) = monitors sh"
proof -
  define n where "n = monitors sh"
  define m where "m = length xs"
  define a where "a = allocated sh"
  define fr where "fr = fresh_osds m (n - m) a"
  define sh' where "sh' = sh\<lparr>uiGroup :=
           fold (\<lambda>w. removeAll (osd_id w)) (drop n xs)
             (uiGroup sh @ map (\<lambda>j. a + j) [0..<n - m]),
         allocated := a + (n - m)\<rparr>"
  define mgr' where "mgr' = mgr\<lparr>osdWindows := map Some (take n xs @ fr)\<rparr>"
  have closed: "onMonitorsChanged (sh, mgr) = (sh', mgr')"
    using onMonitorsChanged_closed [OF ws, of sh]
    by (simp add: sh'_def mgr'_def n_def m_def a_def fr_def)
  show "monitors (fst (onMonitorsChanged (sh, mgr))) = monitors sh"
    by (simp add: closed sh'_def)
  have "map monitorIndex (take n xs) = [0..<min n m]"
    using mi by (simp add: m_def take_map [symmetric] min_def)
  then have 1: "map monitorIndex (take n xs @ fr) = [0..<monitors sh']"
    by (cases "n \<le> m")
      (simp_all add: fr_def map_monitorIndex_fresh sh'_def n_def [symmetric] min_def
        upt_split)
  have ids_old: "\<forall>w \<in> set (take n xs). osd_id w < a"
    using al by (auto simp: a_def dest: in_set_takeD)
  have "distinct (map osd_id (take n xs))"
    using di by (simp add: take_map [symmetric] distinct_take)
  then have 2: "distinct (map osd_id (take n xs @ fr))"
    using ids_old by (auto simp: fr_def map_osd_id_fresh)
  have disj: "osd_id ` set (take n xs) \<inter> osd_id ` set (drop n xs) = {}"
  proof -
    have "distinct (map osd_id (take n xs) @ map osd_id (drop n xs))"
      using di by (simp flip: map_append)
    then show ?thesis by auto
  qed
  have grp: "set (uiGroup sh') =
      (set (uiGroup sh) \<union> {a..<a + (n - m)}) - osd_id ` set (drop n xs)"
    by (simp add: sh'_def set_fold_removeAll map_add_upt add.commute)
  have dropped: "\<forall>w \<in> set (drop n xs). osd_id w < a"
    using al by (auto simp: a_def dest: in_set_dropD)
  have 3: "\<forall>w \<in> set (take n xs @ fr). osd_id w < allocated sh' \<and> osd_id w \<in> set (uiGroup sh')"
  proof
    fix w assume "w \<in> set (take n xs @ fr)"
    then consider "w \<in> set (take n xs)" | "w \<in> set fr" by auto
    then show "osd_id w < allocated sh' \<and> osd_id w \<in> set (uiGroup sh')"
    proof cases
      case 1
      then have "w \<in> set xs" by (rule in_set_takeD)
      then have "osd_id w < a" "osd_id w \<in> set (uiGroup sh)"
        using al by (simp_all add: a_def)
      moreover have "osd_id w \<notin> osd_id ` set (drop n xs)"
        using 1 disj by blast
      moreover have "allocated sh' = a + (n - m)"
        by (simp add: sh'_def)
      ultimately show ?thesis
        unfolding grp by auto
    next
      case 2
      then have "osd_id w \<in> set (map osd_id fr)" by simp
      then have r: "a \<le> osd_id w" "osd_id w < a + (n - m)"
        by (simp_all add: fr_def map_osd_id_fresh)
      then have "osd_id w \<notin> osd_id ` set (drop n xs)"
        using dropped by auto
      moreover have "allocated sh' = a + (n - m)"
        by (simp add: sh'_def)
      ultimately show ?thesis
        unfolding grp using r by auto
    qed
  qed
  have "osd_inv (sh', mgr')"
    unfolding osd_inv_iff
    using 1 2 3 by (intro exI [of _ "take n xs @ fr"]) (simp add: mgr'_def)
  then show "osd_inv (onMonitorsChanged (sh, mgr))"
    by (simp add: closed)
qed

lemma new_ModifiersOSDManager_inv:
  "osd_inv (new_ModifiersOSDManager sh)"
  "monitors (fst (new_ModifiersOSDManager sh)) = monitors sh"
  using onMonitorsChanged_inv [of "\<lparr>osdWindows = []\<rparr>" "[]" sh]
  by (simp_all add: new_ModifiersOSDManager_def)

lemma monitors_changed_inv:
  assumes "osd_inv st"
  shows "osd_inv (monitors_changed n st)"
    and "monitors (fst (monitors_changed n st)) = n"
proof -
  obtain sh mgr where st: "st = (sh, mgr)" by (cases st)
  from assms obtain xs where xs: "osdWindows mgr = map Some xs"
    "map monitorIndex xs = [0..<monitors sh]" "distinct (map osd_id xs)"
    "\<forall>w \<in> set xs. osd_id w < allocated sh \<and> osd_id w \<in> set (uiGroup sh)"
    unfolding st osd_inv_iff by blast
  have len: "length xs = monitors sh"
    using xs(2) by (metis length_map length_upt minus_nat.diff_0)
  have mi: "map monitorIndex xs = [0..<length xs]"
    using xs(2) len by simp
  have al: "\<forall>w \<in> set xs. osd_id w < allocated (sh\<lparr>monitors := n\<rparr>) \<and>
      osd_id w \<in> set (uiGroup (sh\<lparr>monitors := n\<rparr>))"
    using xs(4) by simp
  show "osd_inv (monitors_changed n st)"
    using onMonitorsChanged_inv(1) [OF xs(1) mi xs(3) al]
    by (simp add: st monitors_changed_def)
  show "monitors (fst (monitors_changed n st)) = n"
    using onMonitorsChanged_inv(2) [OF xs(1) mi xs(3) al]
    by (simp add: st monitors_changed_def)
qed

lemma fold_monitors_changed_inv:
  "osd_inv st \<Longrightarrow>
   osd_inv (fold monitors_changed ns st) \<and>
   monitors (fst (fold monitors_changed ns st)) = last (monitors (fst st) # ns)"
proof (induction ns arbitrary: st)
  case Nil
  then show ?case by simp
next
  case (Cons n ns)
  from Cons.IH [OF monitors_changed_inv(1) [OF Cons.prems, of n]]
  show ?case
    by (simp add: monitors_changed_inv(2) [OF Cons.prems])
qed

lemma osd_inv_slots:
  assumes "osd_inv (sh, mgr)"
  shows "length (osdWindows mgr) = monitors sh"
    and "i < monitors sh \<Longrightarrow> \<exists>w. osdWindows mgr ! i = Some w \<and> monitorIndex w = i"
proof -
  have mi: "map (map_option monitorIndex) (osdWindows mgr) = map Some [0..<monitors sh]"
    using assms by (simp add: osd_inv_def)
  then show len: "length (osdWindows mgr) = monitors sh"
    by (metis length_map length_upt minus_nat.diff_0)
  assume i: "i < monitors sh"
  then have "map (map_option monitorIndex) (osdWindows mgr) ! i = Some i"
    using mi by simp
  then have "map_option monitorIndex (osdWindows mgr ! i) = Some i"
    using i len by simp
  then show "\<exists>w. osdWindows mgr ! i = Some w \<and> monitorIndex w = i"
    by auto
qed

text \<open>
  C6. After the constructor and after every further \<^verbatim>\<open>monitors-changed\<close> event,
  for every sequence \<open>ns\<close> of monitor counts: the array has as many slots as there are
  monitors, slot \<open>i\<close> holds an OSD of monitor \<open>i\<close> for every \<open>i\<close> below the count,
  and the invariant holds (the OSDs are different objects, all in the scene graph).
\<close>

theorem C6_one_osd_per_monitor:
  fixes sh :: Shell and ns :: "nat list"
  defines "st \<equiv> fold monitors_changed ns (new_ModifiersOSDManager sh)"
  shows "monitors (fst st) = last (monitors sh # ns) \<and>
         length (osdWindows (snd st)) = monitors (fst st) \<and>
         (\<forall>i < monitors (fst st). \<exists>w. osdWindows (snd st) ! i = Some w \<and> monitorIndex w = i) \<and>
         osd_inv st"
proof -
  have inv: "osd_inv st" and mon: "monitors (fst st) = last (monitors sh # ns)"
    using fold_monitors_changed_inv [OF new_ModifiersOSDManager_inv(1), of ns sh]
    by (simp_all add: st_def new_ModifiersOSDManager_inv(2))
  from inv have "osd_inv (fst st, snd st)" by simp
  from osd_inv_slots [OF this] inv mon show ?thesis by blast
qed

lemma example_monitors_eq:
  "example_monitors =
     (\<lparr>monitors = 2, uiGroup = [0, 1], allocated = 2\<rparr>,
      \<lparr>osdWindows =
         [Some \<lparr>osd_id = 0, monitorIndex = 0, titleLabel = [], statusLabel = [], visible = False\<rparr>,
          Some \<lparr>osd_id = 1, monitorIndex = 1, titleLabel = [], statusLabel = [], visible = False\<rparr>]\<rparr>)"
  using onMonitorsChanged_closed [of "\<lparr>osdWindows = []\<rparr>" "[]" "\<lparr>monitors = 2, uiGroup = [], allocated = 0\<rparr>"]
  by (simp add: example_monitors_def new_ModifiersOSDManager_def fresh_osds_def
      upt_conv_Cons)

text \<open>Two monitors at construction, then three, then one.\<close>

theorem C6_one_osd_per_monitor_witness:
  "fold monitors_changed [3, 1] (new_ModifiersOSDManager \<lparr>monitors = 2, uiGroup = [], allocated = 0\<rparr>) =
     (\<lparr>monitors = 1, uiGroup = [0], allocated = 3\<rparr>,
      \<lparr>osdWindows =
         [Some \<lparr>osd_id = 0, monitorIndex = 0, titleLabel = [], statusLabel = [], visible = False\<rparr>]\<rparr>) \<and>
   length (osdWindows (snd (fold monitors_changed [3, 1]
     (new_ModifiersOSDManager \<lparr>monitors = 2, uiGroup = [], allocated = 0\<rparr>)))) = 1"
proof -
  let ?w0 = "\<lparr>osd_id = 0, monitorIndex = 0, titleLabel = [], statusLabel = [], visible = False\<rparr>"
  let ?w1 = "\<lparr>osd_id = 1, monitorIndex = 1, titleLabel = [], statusLabel = [], visible = False\<rparr>"
  let ?w2 = "\<lparr>osd_id = 2, monitorIndex = 2, titleLabel = [], statusLabel = [], visible = False\<rparr>"
  have s0: "new_ModifiersOSDManager \<lparr>monitors = 2, uiGroup = [], allocated = 0\<rparr> =
      (\<lparr>monitors = 2, uiGroup = [0, 1], allocated = 2\<rparr>, \<lparr>osdWindows = [Some ?w0, Some ?w1]\<rparr>)"
    using example_monitors_eq by (simp add: example_monitors_def)
  have s1: "monitors_changed 3
      (\<lparr>monitors = 2, uiGroup = [0, 1], allocated = 2\<rparr>, \<lparr>osdWindows = [Some ?w0, Some ?w1]\<rparr>) =
      (\<lparr>monitors = 3, uiGroup = [0, 1, 2], allocated = 3\<rparr>,
       \<lparr>osdWindows = [Some ?w0, Some ?w1, Some ?w2]\<rparr>)"
    using onMonitorsChanged_closed [of "\<lparr>osdWindows = [Some ?w0, Some ?w1]\<rparr>" "[?w0, ?w1]"
        "\<lparr>monitors = 3, uiGroup = [0, 1], allocated = 2\<rparr>"]
    by (simp add: monitors_changed_def fresh_osds_def)
  have s2: "monitors_changed 1
      (\<lparr>monitors = 3, uiGroup = [0, 1, 2], allocated = 3\<rparr>,
       \<lparr>osdWindows = [Some ?w0, Some ?w1, Some ?w2]\<rparr>) =
      (\<lparr>monitors = 1, uiGroup = [0], allocated = 3\<rparr>, \<lparr>osdWindows = [Some ?w0]\<rparr>)"
    using onMonitorsChanged_closed [of "\<lparr>osdWindows = [Some ?w0, Some ?w1, Some ?w2]\<rparr>"
        "[?w0, ?w1, ?w2]" "\<lparr>monitors = 1, uiGroup = [0, 1, 2], allocated = 3\<rparr>"]
    by (simp add: monitors_changed_def fresh_osds_def)
  have run: "fold monitors_changed [3, 1]
      (new_ModifiersOSDManager \<lparr>monitors = 2, uiGroup = [], allocated = 0\<rparr>) =
      (\<lparr>monitors = 1, uiGroup = [0], allocated = 3\<rparr>, \<lparr>osdWindows = [Some ?w0]\<rparr>)"
    by (simp only: fold.simps comp_apply id_apply s0 s1 s2)
  show ?thesis
    using C6_one_osd_per_monitor [of "[3, 1]" "\<lparr>monitors = 2, uiGroup = [], allocated = 0\<rparr>"]
    unfolding run by simp
qed

lemma set_drop_map_Some:
  "{osd_id w |w. Some w \<in> set (drop n (map Some xs))} = osd_id ` set (drop n xs)"
  by (auto simp: drop_map)

text \<open>
  C7, amended. On a \<^verbatim>\<open>monitors-changed\<close> event with \<open>n\<close> monitors, in a state that
  satisfies the invariant: the slots below \<open>n\<close> keep the OSD they hold; a new OSD is
  created only for each index from the old count up to \<open>n\<close>; the OSDs that leave
  the scene graph are exactly those of the slots from \<open>n\<close> on; every OSD of the
  array afterwards is in the scene graph.
\<close>

theorem C7_incremental_update:
  assumes "osd_inv (sh, mgr)"
  shows "osdWindows (snd (monitors_changed n (sh, mgr))) =
           take n (osdWindows mgr) @
           map Some (fresh_osds (monitors sh) (n - monitors sh) (allocated sh)) \<and>
         allocated (fst (monitors_changed n (sh, mgr))) = allocated sh + (n - monitors sh) \<and>
         set (uiGroup (fst (monitors_changed n (sh, mgr)))) =
           (set (uiGroup sh) \<union> {allocated sh..<allocated sh + (n - monitors sh)}) -
           {osd_id w |w. Some w \<in> set (drop n (osdWindows mgr))} \<and>
         list_all (\<lambda>slot. occupied slot (fst (monitors_changed n (sh, mgr))))
           (osdWindows (snd (monitors_changed n (sh, mgr))))"
proof -
  from assms obtain xs where xs: "osdWindows mgr = map Some xs"
    "map monitorIndex xs = [0..<monitors sh]"
    unfolding osd_inv_iff by blast
  have len: "length xs = monitors sh"
    using xs(2) by (metis length_map length_upt minus_nat.diff_0)
  have closed: "monitors_changed n (sh, mgr) =
     (sh\<lparr>monitors := n,
         uiGroup :=
           fold (\<lambda>w. removeAll (osd_id w)) (drop n xs)
             (uiGroup sh @ map (\<lambda>j. allocated sh + j) [0..<n - monitors sh]),
         allocated := allocated sh + (n - monitors sh)\<rparr>,
      mgr\<lparr>osdWindows :=
            map Some (take n xs @ fresh_osds (monitors sh) (n - monitors sh) (allocated sh))\<rparr>)"
    using onMonitorsChanged_closed [OF xs(1), of "sh\<lparr>monitors := n\<rparr>"]
    by (simp add: monitors_changed_def len)
  have inv': "osd_inv (monitors_changed n (sh, mgr))"
    using assms by (rule monitors_changed_inv(1))
  then have occ: "list_all (\<lambda>slot. occupied slot (fst (monitors_changed n (sh, mgr))))
           (osdWindows (snd (monitors_changed n (sh, mgr))))"
    by (simp add: osd_inv_def split: prod.splits)
  have grp: "set (uiGroup (fst (monitors_changed n (sh, mgr)))) =
           (set (uiGroup sh) \<union> {allocated sh..<allocated sh + (n - monitors sh)}) -
           {osd_id w |w. Some w \<in> set (drop n (osdWindows mgr))}"
    unfolding xs(1) set_drop_map_Some
    by (simp add: closed set_fold_removeAll map_add_upt add.commute)
  have win: "osdWindows (snd (monitors_changed n (sh, mgr))) =
           take n (osdWindows mgr) @
           map Some (fresh_osds (monitors sh) (n - monitors sh) (allocated sh))"
    by (simp add: closed xs(1) take_map)
  have "allocated (fst (monitors_changed n (sh, mgr))) = allocated sh + (n - monitors sh)"
    by (simp add: closed)
  with win grp occ show ?thesis by blast
qed

text \<open>A third monitor appears: one OSD is created, the two others are kept.\<close>

theorem C7_incremental_update_witness:
  "osd_inv example_monitors \<and>
   osdWindows (snd (monitors_changed 3 example_monitors)) =
     osdWindows (snd example_monitors) @
     [Some \<lparr>osd_id = 2, monitorIndex = 2, titleLabel = [], statusLabel = [], visible = False\<rparr>] \<and>
   set (uiGroup (fst (monitors_changed 3 example_monitors))) = {0, 1, 2}"
proof -
  have inv: "osd_inv example_monitors"
    unfolding example_monitors_def by (rule new_ModifiersOSDManager_inv(1))
  then have inv': "osd_inv (fst example_monitors, snd example_monitors)"
    by simp
  show ?thesis
    using C7_incremental_update [OF inv', of 3] inv
    by (simp add: example_monitors_eq fresh_osds_def) auto
qed

text \<open>
  C7 as stated fails: an event that leaves the number of monitors at two destroys
  nothing and creates nothing; the state is the one before.
\<close>

theorem C7_recreate_counterexample:
  "\<not> spec_destroyed_and_recreated example_monitors (monitors_changed 2 example_monitors) \<and>
   monitors_changed 2 example_monitors = example_monitors \<and>
   uiGroup (fst (monitors_changed 2 example_monitors)) = [0, 1] \<and>
   map (map_option osd_id) (osdWindows (snd (monitors_changed 2 example_monitors))) =
     [Some 0, Some 1]"
proof -
  let ?w0 = "\<lparr>osd_id = 0, monitorIndex = 0, titleLabel = [], statusLabel = [], visible = False\<rparr>"
  let ?w1 = "\<lparr>osd_id = 1, monitorIndex = 1, titleLabel = [], statusLabel = [], visible = False\<rparr>"
  have same: "monitors_changed 2 example_monitors = example_monitors"
    using onMonitorsChanged_closed [of "\<lparr>osdWindows = [Some ?w0, Some ?w1]\<rparr>" "[?w0, ?w1]"
        "\<lparr>monitors = 2, uiGroup = [0, 1], allocated = 2\<rparr>"]
    by (simp add: example_monitors_eq monitors_changed_def fresh_osds_def)
  show ?thesis
    unfolding same
    by (simp add: example_monitors_eq spec_destroyed_and_recreated_def)
qed

section \<open>Properties of the preferences window\<close>

lemma list_all_enumerate_iff:
  "list_all (\<lambda>(i, x). P i x) (enumerate n xs) \<longleftrightarrow> (\<forall>i < length xs. P (n + i) (xs ! i))"
proof (induction xs arbitrary: n)
  case Nil
  then show ?case by simp
next
  case (Cons x xs)
  have "(\<forall>i < Suc (length xs). P (n + i) ((x # xs) ! i)) \<longleftrightarrow>
        P n x \<and> (\<forall>i < length xs. P (Suc n + i) (xs ! i))"
    by (auto simp: less_Suc_eq_0_disj)
  with Cons.IH [of "Suc n"] show ?case by simp
qed

lemma isCurrentEqualToDefault_iff:
  "isCurrentEqualToDefault sm em \<longleftrightarrow>
     (\<forall>i < length (keys sm).
        array_index (defaultValues sm) i = Some (getEntryText (keys sm ! i) em))"
  unfolding isCurrentEqualToDefault_def list_all_enumerate_iff by auto

lemma isCurrentEqualToSaved_iff:
  "isCurrentEqualToSaved sm psm em \<longleftrightarrow>
     (\<forall>key \<in> set (keys sm). currentSymbols psm key = Some (getEntryText key em))"
  unfolding isCurrentEqualToSaved_def list_all_iff by auto

text \<open>
  C8, amended. After \<^verbatim>\<open>_updateButtonStates\<close>, which every entry change runs, the
  Reset button is sensitive exactly when for some position \<open>i\<close> the text of the entry
  of the \<open>i\<close>-th key differs from the \<open>i\<close>-th default value given to the group
  (the built-in \<^verbatim>\<open>Symbols\<close> preset in the preferences window), and the Save button
  is sensitive exactly when some key's entry text differs from the symbol currently
  stored for the key; the entries are not changed.
\<close>

theorem C8_button_states:
  "sensitive (resetButton (updateButtonStates psm g)) =
     (\<exists>i < length (keys (simpleManager g)).
        array_index (defaultValues (simpleManager g)) i \<noteq>
          Some (getEntryText (keys (simpleManager g) ! i) (entryManager g))) \<and>
   sensitive (saveButton (updateButtonStates psm g)) =
     (\<exists>key \<in> set (keys (simpleManager g)).
        currentSymbols psm key \<noteq> Some (getEntryText key (entryManager g))) \<and>
   entryManager (updateButtonStates psm g) = entryManager g \<and>
   simpleManager (updateButtonStates psm g) = simpleManager g"
proof -
  have "sensitive (resetButton (updateButtonStates psm g)) =
      (\<not> isCurrentEqualToDefault (simpleManager g) (entryManager g))"
    by (simp add: updateButtonStates_def Let_def)
  then have r: "sensitive (resetButton (updateButtonStates psm g)) =
     (\<exists>i < length (keys (simpleManager g)).
        array_index (defaultValues (simpleManager g)) i \<noteq>
          Some (getEntryText (keys (simpleManager g) ! i) (entryManager g)))"
    unfolding isCurrentEqualToDefault_iff by blast
  have "sensitive (saveButton (updateButtonStates psm g)) =
      (\<not> isCurrentEqualToSaved (simpleManager g) psm (entryManager g))"
    by (simp add: updateButtonStates_def Let_def)
  then have s: "sensitive (saveButton (updateButtonStates psm g)) =
     (\<exists>key \<in> set (keys (simpleManager g)).
        currentSymbols psm key \<noteq> Some (getEntryText key (entryManager g)))"
    unfolding isCurrentEqualToSaved_iff by blast
  show ?thesis
    using r s by (simp add: updateButtonStates_def Let_def)
qed

text \<open>
  The window is opened over settings that store the preset, so the entries hold the
  preset. The user changes the Caps entry to \<open>C\<close>: Reset and Save become sensitive.
  The user changes it back to \<open>Caps\<close>: both become insensitive.
\<close>

theorem C8_button_states_witness:
  "sensitive (resetButton (entry_changed ''caps-symbol'' ''C'' example_prefs example_group)) \<and>
   sensitive (saveButton (entry_changed ''caps-symbol'' ''C'' example_prefs example_group)) \<and>
   \<not> sensitive (resetButton (entry_changed ''caps-symbol'' ''Caps'' example_prefs
        (entry_changed ''caps-symbol'' ''C'' example_prefs example_group))) \<and>
   \<not> sensitive (saveButton (entry_changed ''caps-symbol'' ''Caps'' example_prefs
        (entry_changed ''caps-symbol'' ''C'' example_prefs example_group)))"
proof -
  have run: "sensitive (resetButton (entry_changed ''caps-symbol'' ''C'' example_prefs example_group)) \<and>
   sensitive (saveButton (entry_changed ''caps-symbol'' ''C'' example_prefs example_group)) \<and>
   \<not> sensitive (resetButton (entry_changed ''caps-symbol'' ''Caps'' example_prefs
        (entry_changed ''caps-symbol'' ''C'' example_prefs example_group))) \<and>
   \<not> sensitive (saveButton (entry_changed ''caps-symbol'' ''Caps'' example_prefs
        (entry_changed ''caps-symbol'' ''C'' example_prefs example_group)))"
    by code_simp
  from C8_button_states [of example_prefs example_group] run show ?thesis
    by (elim conjE) (intro conjI)
qed

text \<open>
  C8 as stated fails where the schema's defaults are not the preset: after the two
  changes above every entry holds its preset string again, every schema default is
  \<open>x\<close>, so every entry differs from the schema default of its key, and the Reset
  button is insensitive.
\<close>

theorem C8_schema_default_counterexample:
  "map (\<lambda>key. getEntryText key (entryManager (entry_changed ''caps-symbol'' ''Caps'' example_prefs
        (entry_changed ''caps-symbol'' ''C'' example_prefs example_group)))) CONFIG_KEYS_modifiers =
     SYMBOL_PRESETS_Symbols \<and>
   getSchemaDefaults example_prefs CONFIG_KEYS_modifiers = replicate 8 ''x'' \<and>
   spec_differs_from_schema_default example_prefs
     (entry_changed ''caps-symbol'' ''Caps'' example_prefs
        (entry_changed ''caps-symbol'' ''C'' example_prefs example_group)) \<and>
   \<not> sensitive (resetButton (entry_changed ''caps-symbol'' ''Caps'' example_prefs
        (entry_changed ''caps-symbol'' ''C'' example_prefs example_group)))"
  by code_simp

end
